theory Spec2Isabelle
  imports Complex_Main "HOL-Library.Sublist"
begin

section \<open>Habit tracker bot: persistence layer\<close>

text \<open>
  The program is a single Python module, \<^verbatim>\<open>main.py\<close>: a class \<^verbatim>\<open>Database\<close> over three
  SQLite tables and a set of asynchronous handlers registered on a dispatcher. The tables
  are modelled as lists of rows in insertion order, a calendar date as its day number
  (\<^verbatim>\<open>date.today()\<close> is a parameter \<open>today\<close> of every operation that reads the clock, and
  \<^verbatim>\<open>timedelta(days=1)\<close> is the integer 1), text as \<open>string\<close> with one \<open>char\<close> per code
  point. The ISO form YYYY-MM-DD that the tables store has a fixed width, so the
  lexicographic order that \<^verbatim>\<open>ORDER BY track_date\<close> uses is the order of the day numbers.
\<close>

type_synonym date = int

record user_row =
  u_user_id :: int
  username :: "string option"
  first_name :: "string option"
  last_name :: "string option"
  registered_date :: date
  is_admin_col :: bool

record habit_row =
  habit_id :: int
  h_user_id :: int
  habit_name :: "string option"
  habit_description :: "string option"
  created_date :: date
  is_active :: bool

record tracking_row =
  tracking_id :: int
  t_habit_id :: int
  track_date :: date
  status :: string

record database =
  users :: "user_row list"
  habits :: "habit_row list"
  habit_tracking :: "tracking_row list"

text \<open>\<^verbatim>\<open>init_db\<close> on a fresh file: the three tables exist and are empty.\<close>

definition init_db :: database where
  "init_db = \<lparr>users = [], habits = [], habit_tracking = []\<rparr>"

text \<open>
  A column declared \<^verbatim>\<open>INTEGER\<close> holds a signed 64-bit value: binding a Python integer
  outside that range makes \<^verbatim>\<open>cursor.execute\<close> raise OverflowError, which every method of
  \<^verbatim>\<open>Database\<close> catches in its \<^verbatim>\<open>except Exception\<close> branch.
\<close>

definition sqlite_int :: "int \<Rightarrow> bool" where
  "sqlite_int n = (- (2 ^ 63) \<le> n \<and> n < 2 ^ 63)"

text \<open>
  \<^verbatim>\<open>INTEGER PRIMARY KEY AUTOINCREMENT\<close>: one more than the largest key ever used. No row
  is ever deleted, so that is the largest key of the table.
\<close>

definition autoincrement :: "int list \<Rightarrow> int" where
  "autoincrement keys = fold max keys 0 + 1"

definition is_admin :: "int \<Rightarrow> int \<Rightarrow> bool" where
  "is_admin ADMIN_ID user_id = (user_id = ADMIN_ID)"

text \<open>
  \<^verbatim>\<open>add_user\<close>: \<^verbatim>\<open>INSERT OR IGNORE\<close> (a new row only when the key is absent), then an
  \<^verbatim>\<open>UPDATE\<close> of the names and the administrator flag of the row with that key.
\<close>

definition add_user ::
  "int \<Rightarrow> database \<Rightarrow> date \<Rightarrow> int \<Rightarrow> string option \<Rightarrow> string option \<Rightarrow> string option \<Rightarrow> database" where
  "add_user ADMIN_ID db today user_id uname fname lname =
     (if \<not> sqlite_int user_id then db
      else
        let adm = (user_id = ADMIN_ID);
            inserted =
              (if list_ex (\<lambda>u. u_user_id u = user_id) (users db) then users db
               else users db @
                 [\<lparr>u_user_id = user_id, username = uname, first_name = fname,
                   last_name = lname, registered_date = today, is_admin_col = adm\<rparr>])
        in db\<lparr>users :=
             map (\<lambda>u. if u_user_id u = user_id
                       then u\<lparr>username := uname, first_name := fname, last_name := lname,
                              is_admin_col := adm\<rparr>
                       else u) inserted\<rparr>)"

definition get_user :: "database \<Rightarrow> int \<Rightarrow> user_row option" where
  "get_user db user_id =
     (if \<not> sqlite_int user_id then None
      else find (\<lambda>u. u_user_id u = user_id) (users db))"

text \<open>
  \<^verbatim>\<open>add_habit\<close>: a plain \<^verbatim>\<open>INSERT\<close>. The table declares
  \<^verbatim>\<open>FOREIGN KEY (user_id) REFERENCES users (user_id)\<close>, but SQLite enforces foreign keys
  only on a connection that has run \<^verbatim>\<open>PRAGMA foreign_keys = ON\<close>, and \<^verbatim>\<open>get_connection\<close>
  is a bare \<^verbatim>\<open>sqlite3.connect\<close>: the insert never looks at the users table. The result is
  \<^verbatim>\<open>cursor.lastrowid\<close>, or None from the \<^verbatim>\<open>except\<close> branch.
\<close>

definition add_habit ::
  "database \<Rightarrow> date \<Rightarrow> int \<Rightarrow> string option \<Rightarrow> string option \<Rightarrow> database \<times> int option" where
  "add_habit db today user_id name description =
     (if \<not> sqlite_int user_id then (db, None)
      else
        let new_id = autoincrement (map habit_id (habits db))
        in (db\<lparr>habits := habits db @
               [\<lparr>habit_id = new_id, h_user_id = user_id, habit_name = name,
                 habit_description = description, created_date = today,
                 is_active = True\<rparr>]\<rparr>,
            Some new_id))"

definition get_habit :: "database \<Rightarrow> int \<Rightarrow> habit_row option" where
  "get_habit db hid =
     (if \<not> sqlite_int hid then None
      else find (\<lambda>h. habit_id h = hid) (habits db))"

text \<open>
  \<^verbatim>\<open>track_habit\<close>: the \<^verbatim>\<open>INSERT\<close> raises IntegrityError exactly when a row with the same
  (habit_id, track_date) exists (the table's \<^verbatim>\<open>UNIQUE\<close> constraint; the foreign key to
  habits is not enforced); the handler of that error updates the status of the rows with
  that key. The date is read from the clock inside the method.
\<close>

definition same_day :: "int \<Rightarrow> date \<Rightarrow> tracking_row \<Rightarrow> bool" where
  "same_day hid d r = (t_habit_id r = hid \<and> track_date r = d)"

definition track_habit :: "database \<Rightarrow> date \<Rightarrow> int \<Rightarrow> string \<Rightarrow> database \<times> bool" where
  "track_habit db today hid st =
     (if \<not> sqlite_int hid then (db, False)
      else if list_ex (same_day hid today) (habit_tracking db)
      then (db\<lparr>habit_tracking :=
                 map (\<lambda>r. if same_day hid today r then r\<lparr>status := st\<rparr> else r)
                   (habit_tracking db)\<rparr>,
            False)
      else (db\<lparr>habit_tracking := habit_tracking db @
                 [\<lparr>tracking_id = autoincrement (map tracking_id (habit_tracking db)),
                   t_habit_id = hid, track_date = today, status = st\<rparr>]\<rparr>,
            True))"

text \<open>
  The status of the row of a habit on a date: the \<^verbatim>\<open>SELECT status ... WHERE habit_id = ?
  AND track_date = ?\<close> with \<^verbatim>\<open>fetchone\<close>. \<^verbatim>\<open>get_today_status\<close> asks for the clock's date.
\<close>

definition status_on :: "database \<Rightarrow> int \<Rightarrow> date \<Rightarrow> string option" where
  "status_on db hid d = map_option status (find (same_day hid d) (habit_tracking db))"

definition get_today_status :: "database \<Rightarrow> date \<Rightarrow> int \<Rightarrow> string option" where
  "get_today_status db today hid =
     (if \<not> sqlite_int hid then None else status_on db hid today)"

text \<open>
  \<^verbatim>\<open>get_streak\<close>: the rows of the habit, most recent date first, then one pass over them.
  The loop keeps the source's two branches, which test the same condition.
\<close>

definition select_records :: "database \<Rightarrow> int \<Rightarrow> (date \<times> string) list" where
  "select_records db hid =
     map (\<lambda>r. (track_date r, status r))
       (sort_key (\<lambda>r. - track_date r)
          (filter (\<lambda>r. t_habit_id r = hid) (habit_tracking db)))"

fun streak_loop :: "(date \<times> string) list \<Rightarrow> date \<Rightarrow> nat \<Rightarrow> nat" where
  "streak_loop [] current_date streak = streak"
| "streak_loop ((record_date, st) # records) current_date streak =
     (if record_date = current_date \<and> st = ''completed''
      then streak_loop records (current_date - 1) (streak + 1)
      else if st = ''completed'' \<and> record_date = current_date
      then streak_loop records (current_date - 1) (streak + 1)
      else streak)"

definition get_streak :: "database \<Rightarrow> date \<Rightarrow> int \<Rightarrow> nat" where
  "get_streak db today hid =
     (if \<not> sqlite_int hid then 0
      else
        let records = select_records db hid
        in if records = [] then 0 else streak_loop records today 0)"

text \<open>
  \<^verbatim>\<open>get_habit_stats\<close>: the two \<^verbatim>\<open>COUNT(CASE ...)\<close> aggregates and \<^verbatim>\<open>MIN\<close>/\<^verbatim>\<open>MAX\<close> of the
  dates over the rows of the habit. An aggregate query without \<^verbatim>\<open>GROUP BY\<close> returns one
  row also when no row matches: the counts are then 0 and the dates NULL.
\<close>

definition get_habit_stats ::
  "database \<Rightarrow> int \<Rightarrow> (nat \<times> nat \<times> date option \<times> date option) option" where
  "get_habit_stats db hid =
     (if \<not> sqlite_int hid then None
      else
        let rows = filter (\<lambda>r. t_habit_id r = hid) (habit_tracking db);
            dates = map track_date rows
        in Some (length (filter (\<lambda>r. status r = ''completed'') rows),
                 length (filter (\<lambda>r. status r = ''missed'') rows),
                 (if dates = [] then None else Some (fold min dates (hd dates))),
                 (if dates = [] then None else Some (fold max dates (hd dates)))))"

section \<open>Strings and button payloads\<close>

text \<open>
  The Python built-ins the handlers call. \<^verbatim>\<open>str.strip()\<close> drops the characters for which
  \<^verbatim>\<open>str.isspace\<close> holds from both ends; \<^verbatim>\<open>str.split(sep)\<close> cuts at every separator and
  returns one more part than there are separators; \<^verbatim>\<open>int(s)\<close> accepts white space
  around an optional sign and decimal digits, with single underscores between digits, and
  raises ValueError on anything else. Its white space is narrower than that of
  \<^verbatim>\<open>strip\<close>: the separators 0x1C to 0x1F are not skipped.
\<close>

datatype py_error = ValueError | IndexError | TypeError | AttributeError | ZeroDivisionError

definition isspace :: "char \<Rightarrow> bool" where
  "isspace c =
     (let n = (of_char c :: nat)
      in (9 \<le> n \<and> n \<le> 13) \<or> (28 \<le> n \<and> n \<le> 32) \<or> n = 133 \<or> n = 160)"

definition strip :: "string \<Rightarrow> string" where
  "strip s = rev (dropWhile isspace (rev (dropWhile isspace s)))"

fun split_str :: "char \<Rightarrow> string \<Rightarrow> string list" where
  "split_str sep [] = [[]]"
| "split_str sep (c # cs) =
     (if c = sep then [] # split_str sep cs
      else (c # hd (split_str sep cs)) # tl (split_str sep cs))"

definition startswith :: "string \<Rightarrow> string \<Rightarrow> bool" where
  "startswith s p = (take (length p) s = p)"

definition int_space :: "char \<Rightarrow> bool" where
  "int_space c =
     (let n = (of_char c :: nat)
      in (9 \<le> n \<and> n \<le> 13) \<or> n = 32 \<or> n = 133 \<or> n = 160)"

definition is_digit :: "char \<Rightarrow> bool" where
  "is_digit c = (let n = (of_char c :: nat) in 48 \<le> n \<and> n \<le> 57)"

definition digits_value :: "string \<Rightarrow> int" where
  "digits_value ds = foldl (\<lambda>acc c. 10 * acc + (int (of_char c) - 48)) 0 ds"

definition py_int :: "string \<Rightarrow> int option" where
  "py_int s =
     (let t = rev (dropWhile int_space (rev (dropWhile int_space s)));
          negative = (t \<noteq> [] \<and> hd t = CHR ''-'');
          body = (if t \<noteq> [] \<and> (hd t = CHR ''-'' \<or> hd t = CHR ''+'') then tl t else t);
          groups = split_str CHR ''_'' body
      in if list_all (\<lambda>g. g \<noteq> [] \<and> list_all is_digit g) groups
         then Some ((if negative then - 1 else 1) * digits_value (concat groups))
         else None)"

text \<open>
  \<^verbatim>\<open>int(callback.data.split("_")[k])\<close>: IndexError when the payload has too few parts,
  ValueError when the part is not an integer.
\<close>

definition habit_id_arg :: "string \<Rightarrow> nat \<Rightarrow> py_error + int" where
  "habit_id_arg data k =
     (let parts = split_str CHR ''_'' data
      in if length parts \<le> k then Inl IndexError
         else (case py_int (parts ! k) of None \<Rightarrow> Inl ValueError | Some n \<Rightarrow> Inr n))"

section \<open>What a handler sends\<close>

text \<open>
  The chat transport is outside the program. A handler's effect on it is the list, in
  order, of the calls it makes: an answer to a button press (bare, or with a text shown as
  a toast or, with \<^verbatim>\<open>show_alert=True\<close>, as an alert), an edit of a message, a new message,
  and the copy of the broadcast message to one chat, which either delivers or raises. The
  texts are named, not spelled out; keyboards are not modelled.
\<close>

datatype alert = Habit_not_found | Error_occurred

datatype toast = Marked_completed | Updated_to_completed | Marked_missed | Updated_to_missed

datatype answer = Ack | Toast toast | Alert alert

datatype stats_body =
    Stats_lines nat nat nat "date option" "date option" "rat option"
  | No_data_yet

datatype message_text =
    Habit_stats_text "string option" stats_body
  | Marked_text "string option" string nat
  | Habit_detail_text "string option" "string option" date nat "string option"
  | Ask_habit_name
  | Name_too_long
  | Name_too_short
  | Ask_description
  | Description_too_long
  | Habit_created "string option"
  | Habit_creation_failed
  | No_rights
  | Broadcast_cancelled
  | Broadcast_started nat
  | Broadcast_progress nat nat nat nat
  | Broadcast_done nat nat nat rat

datatype out =
    Answer answer
  | Edit_text message_text
  | Send message_text
  | Copy_message int bool

text \<open>
  A handler was silent when all it sent were bare answers to the button press: the user
  sees no toast, no alert and no new or edited message.
\<close>

definition silent :: "out list \<Rightarrow> bool" where
  "silent sent = list_all (\<lambda>x. x = Answer Ack) sent"

section \<open>Button handlers\<close>

text \<open>
  \<^verbatim>\<open>callback_habit_stats\<close>. The body of the statistics text: the branch with the counts
  is taken when \<^verbatim>\<open>stats and stats[0] is not None\<close>, that is whenever the query returned
  its row, since a \<^verbatim>\<open>COUNT\<close> is never NULL; the percentage line is added when
  \<^verbatim>\<open>total > 0\<close>. The percentage is the exact quotient (the source computes it in
  floating point and prints one decimal).
\<close>

definition stats_text ::
  "(nat \<times> nat \<times> date option \<times> date option) option \<Rightarrow> nat \<Rightarrow> stats_body" where
  "stats_text stats streak =
     (case stats of
        None \<Rightarrow> No_data_yet
      | Some (completed, missed, first_track, last_track) \<Rightarrow>
          (let total = completed + missed
           in Stats_lines completed missed streak first_track last_track
                (if total > 0 then Some (of_nat completed / of_nat total * 100) else None)))"

definition callback_habit_stats :: "database \<Rightarrow> date \<Rightarrow> string \<Rightarrow> out list" where
  "callback_habit_stats db today data =
     (case habit_id_arg data 2 of
        Inl e \<Rightarrow> [Answer (Alert Error_occurred), Answer Ack]
      | Inr hid \<Rightarrow>
          (case get_habit db hid of
             None \<Rightarrow> [Answer (Alert Habit_not_found)]
           | Some habit \<Rightarrow>
               [Edit_text (Habit_stats_text (habit_name habit)
                  (stats_text (get_habit_stats db hid) (get_streak db today hid))),
                Answer Ack]))"

text \<open>
  \<^verbatim>\<open>callback_complete_habit\<close> and \<^verbatim>\<open>callback_miss_habit\<close>: parse, write the mark, answer
  with a toast, then read the habit for the new text. \<^verbatim>\<open>habit[2]\<close> raises TypeError when
  \<^verbatim>\<open>get_habit\<close> returned None; every exception of the body ends in the alert of the
  \<^verbatim>\<open>except Exception\<close> branch. Neither handler reads \<^verbatim>\<open>callback.from_user\<close>: the user
  who pressed the button is a parameter the body does not use.
\<close>

definition mark_habit ::
  "string \<Rightarrow> toast \<Rightarrow> toast \<Rightarrow> database \<Rightarrow> date \<Rightarrow> int \<Rightarrow> string \<Rightarrow> database \<times> out list" where
  "mark_habit st fresh updated db today from_user data =
     (case habit_id_arg data 1 of
        Inl e \<Rightarrow> (db, [Answer (Alert Error_occurred)])
      | Inr hid \<Rightarrow>
          (let (db', is_new) = track_habit db today hid st;
               message = (if is_new then fresh else updated);
               streak = get_streak db' today hid
           in case get_habit db' hid of
                None \<Rightarrow> (db', [Answer (Toast message), Answer (Alert Error_occurred)])
              | Some habit \<Rightarrow>
                  (db', [Answer (Toast message),
                         Edit_text (Marked_text (habit_name habit) st streak)])))"

definition callback_complete_habit ::
  "database \<Rightarrow> date \<Rightarrow> int \<Rightarrow> string \<Rightarrow> database \<times> out list" where
  "callback_complete_habit = mark_habit ''completed'' Marked_completed Updated_to_completed"

definition callback_miss_habit ::
  "database \<Rightarrow> date \<Rightarrow> int \<Rightarrow> string \<Rightarrow> database \<times> out list" where
  "callback_miss_habit = mark_habit ''missed'' Marked_missed Updated_to_missed"

text \<open>
  \<^verbatim>\<open>callback_habit_detail\<close>: a payload that is not exactly \<^verbatim>\<open>habit\<close> and one more part
  returns at once, before anything is sent; a part that is not an integer is the
  \<^verbatim>\<open>except ValueError: pass\<close> branch, after which only the bare answer is sent.
\<close>

definition callback_habit_detail :: "database \<Rightarrow> date \<Rightarrow> string \<Rightarrow> out list" where
  "callback_habit_detail db today data =
     (let parts = split_str CHR ''_'' data
      in if length parts = 2 \<and> parts ! 0 = ''habit''
         then (case py_int (parts ! 1) of
                 None \<Rightarrow> [Answer Ack]
               | Some hid \<Rightarrow>
                   (case get_habit db hid of
                      None \<Rightarrow> [Answer (Alert Habit_not_found)]
                    | Some habit \<Rightarrow>
                        [Edit_text (Habit_detail_text (habit_name habit)
                           (habit_description habit) (created_date habit)
                           (get_streak db today hid) (get_today_status db today hid)),
                         Answer Ack]))
         else [])"

section \<open>The button router\<close>

text \<open>
  The dispatcher tries the handlers of a button press in the order of their registration
  and calls the first whose filter accepts the payload. The list is the order of the
  \<^verbatim>\<open>@dp.callback_query\<close> decorators in the module.
\<close>

datatype handler =
    Callback_my_habits | Callback_new_habit | Callback_stats | Callback_help
  | Callback_back_to_main | Callback_habit_stats | Callback_complete_habit
  | Callback_miss_habit | Callback_habit_detail | Callback_admin_panel
  | Callback_admin_users | Callback_admin_stats | Callback_admin_broadcast

datatype data_filter = Equals string | Startswith string

fun accepts :: "data_filter \<Rightarrow> string \<Rightarrow> bool" where
  "accepts (Equals p) data = (data = p)"
| "accepts (Startswith p) data = startswith data p"

definition callback_handlers :: "(data_filter \<times> handler) list" where
  "callback_handlers =
     [(Equals ''my_habits'', Callback_my_habits),
      (Equals ''new_habit'', Callback_new_habit),
      (Equals ''stats'', Callback_stats),
      (Equals ''help'', Callback_help),
      (Equals ''back_to_main'', Callback_back_to_main),
      (Startswith ''habit_stats_'', Callback_habit_stats),
      (Startswith ''complete_'', Callback_complete_habit),
      (Startswith ''miss_'', Callback_miss_habit),
      (Startswith ''habit_'', Callback_habit_detail),
      (Equals ''admin_panel'', Callback_admin_panel),
      (Equals ''admin_users'', Callback_admin_users),
      (Equals ''admin_stats'', Callback_admin_stats),
      (Equals ''admin_broadcast'', Callback_admin_broadcast)]"

definition route_callback :: "string \<Rightarrow> handler option" where
  "route_callback data =
     map_option snd (find (\<lambda>fh. accepts (fst fh) data) callback_handlers)"

section \<open>Dialogs\<close>

text \<open>
  The session of one user: the state of the dialog in progress, if any, and the data
  collected so far (the only key ever stored is \<^verbatim>\<open>habit_name\<close>). \<^verbatim>\<open>state.clear()\<close>
  resets both. \<^verbatim>\<open>message.text\<close> is None for a message without text, and
  \<^verbatim>\<open>None.strip()\<close> raises AttributeError, which no handler catches.
\<close>

datatype fsm_state =
  waiting_for_habit_name | waiting_for_habit_description | waiting_for_message

record session =
  state :: "fsm_state option"
  data_habit_name :: "string option"

definition clear :: "session \<Rightarrow> session" where
  "clear s = \<lparr>state = None, data_habit_name = None\<rparr>"

definition callback_new_habit :: "session \<Rightarrow> session \<times> out list" where
  "callback_new_habit s =
     (s\<lparr>state := Some waiting_for_habit_name\<rparr>, [Edit_text Ask_habit_name, Answer Ack])"

definition process_habit_name ::
  "session \<Rightarrow> string option \<Rightarrow> py_error + session \<times> out list" where
  "process_habit_name s text =
     (case text of
        None \<Rightarrow> Inl AttributeError
      | Some t \<Rightarrow>
          (let name = strip t
           in if length name > 100 then Inr (s, [Send Name_too_long])
              else if length name < 3 then Inr (s, [Send Name_too_short])
              else Inr (s\<lparr>data_habit_name := Some name,
                          state := Some waiting_for_habit_description\<rparr>,
                        [Send Ask_description])))"

text \<open>
  The description the source stores for \<^verbatim>\<open>/skip\<close> is a Cyrillic literal meaning
  "no description"; it is written here in Latin letters.
\<close>

definition no_description :: string where
  "no_description = ''Bez opisaniya''"

definition process_habit_description ::
  "database \<Rightarrow> date \<Rightarrow> int \<Rightarrow> session \<Rightarrow> string option \<Rightarrow>
   py_error + database \<times> session \<times> out list" where
  "process_habit_description db today from_user s text =
     (case (if text = Some ''/skip'' then Inr no_description
            else (case text of None \<Rightarrow> Inl AttributeError | Some t \<Rightarrow> Inr (strip t))) of
        Inl e \<Rightarrow> Inl e
      | Inr description \<Rightarrow>
          if text \<noteq> Some ''/skip'' \<and> length description > 500
          then Inr (db, s, [Send Description_too_long])
          else
            (let name = data_habit_name s;
                 (db', new_id) = add_habit db today from_user name (Some description)
             in if new_id \<noteq> None \<and> new_id \<noteq> Some 0
                then Inr (db', clear s, [Send (Habit_created name)])
                else Inr (db', s, [Send Habit_creation_failed])))"

section \<open>Broadcast\<close>

text \<open>
  \<^verbatim>\<open>process_broadcast_message\<close>. The recipients are the rows \<^verbatim>\<open>get_all_users\<close> returned,
  read once before the loop. The outcome of \<^verbatim>\<open>bot.copy_message\<close> for the \<open>i\<close>-th recipient
  (counted from 1, as \<^verbatim>\<open>enumerate(users, 1)\<close> does) is given by \<open>copy_message i user_id\<close>:
  True when the call returns, False when it raises. The loop's \<^verbatim>\<open>try\<close> covers that call
  only; the edits of the status message are taken to succeed. The percentage of the final
  text is \<^verbatim>\<open>success_count / total_users * 100\<close>, a division that raises
  ZeroDivisionError when \<^verbatim>\<open>total_users\<close> is 0; it is modelled as the exact quotient.
\<close>

fun broadcast_loop ::
  "(nat \<Rightarrow> int \<Rightarrow> bool) \<Rightarrow> nat \<Rightarrow> (nat \<times> user_row) list \<Rightarrow> nat \<Rightarrow> nat \<Rightarrow> out list \<Rightarrow>
   nat \<times> nat \<times> out list" where
  "broadcast_loop copy_message total_users [] success_count fail_count sent =
     (success_count, fail_count, sent)"
| "broadcast_loop copy_message total_users ((i, u) # rest) success_count fail_count sent =
     (let delivered = copy_message i (u_user_id u);
          success_count' = (if delivered then success_count + 1 else success_count);
          fail_count' = (if delivered then fail_count else fail_count + 1);
          progress =
            (if i mod 10 = 0
             then [Edit_text (Broadcast_progress i total_users success_count' fail_count')]
             else [])
      in broadcast_loop copy_message total_users rest success_count' fail_count'
           (sent @ [Copy_message (u_user_id u) delivered] @ progress))"

definition process_broadcast_message ::
  "int \<Rightarrow> int \<Rightarrow> session \<Rightarrow> string option \<Rightarrow> user_row list \<Rightarrow> (nat \<Rightarrow> int \<Rightarrow> bool) \<Rightarrow>
   py_error + session \<times> out list" where
  "process_broadcast_message ADMIN_ID from_user s text users_snapshot copy_message =
     (if \<not> is_admin ADMIN_ID from_user then Inr (clear s, [Send No_rights])
      else if text = Some ''/cancel'' then Inr (clear s, [Send Broadcast_cancelled])
      else
        (let total_users = length users_snapshot;
             (success_count, fail_count, sent) =
               broadcast_loop copy_message total_users
                 (zip [1 ..< Suc total_users] users_snapshot) 0 0
                 [Send (Broadcast_started total_users)]
         in if total_users = 0 then Inl ZeroDivisionError
            else Inr (clear s,
                   sent @ [Edit_text (Broadcast_done total_users success_count fail_count
                             (of_nat success_count / of_nat total_users * 100))])))"

text \<open>The recipients a run called \<^verbatim>\<open>copy_message\<close> for, in the order of the calls.\<close>

fun deliveries :: "out list \<Rightarrow> (int \<times> bool) list" where
  "deliveries [] = []"
| "deliveries (Copy_message uid ok # os) = (uid, ok) # deliveries os"
| "deliveries (_ # os) = deliveries os"

text \<open>
  What the \<open>i\<close>-th pass of the loop does to its recipient: the chat it copies to and
  whether the copy was delivered.
\<close>

definition outcome :: "(nat \<Rightarrow> int \<Rightarrow> bool) \<Rightarrow> nat \<times> user_row \<Rightarrow> int \<times> bool" where
  "outcome copy_message iu = (u_user_id (snd iu), copy_message (fst iu) (u_user_id (snd iu)))"

section \<open>Reachable databases\<close>

text \<open>
  The database starts empty and changes only through the three writing methods of
  \<^verbatim>\<open>Database\<close>, with any arguments; between two calls the calendar may advance. The clock
  is taken never to go back.
\<close>

inductive reachable :: "database \<Rightarrow> date \<Rightarrow> bool" where
  start: "reachable init_db today"
| next_day: "reachable db today \<Longrightarrow> today \<le> today' \<Longrightarrow> reachable db today'"
| user_added:
    "reachable db today \<Longrightarrow> reachable (add_user ADMIN_ID db today uid uname fname lname) today"
| habit_added: "reachable db today \<Longrightarrow> reachable (fst (add_habit db today uid n d)) today"
| habit_tracked: "reachable db today \<Longrightarrow> reachable (fst (track_habit db today hid st)) today"

section \<open>The streak as the specification words it\<close>

text \<open>
  The backward scan of the specification: start at today; while the record of the expected
  date exists and is completed, count one and step the expected date back one day. The
  scan looks a date up instead of walking a sorted list; it cannot count more days than
  there are records, which bounds it.
\<close>

fun reference_scan :: "(date \<Rightarrow> string option) \<Rightarrow> date \<Rightarrow> nat \<Rightarrow> nat" where
  "reference_scan record_on expected 0 = 0"
| "reference_scan record_on expected (Suc bound) =
     (if record_on expected = Some ''completed''
      then Suc (reference_scan record_on (expected - 1) bound)
      else 0)"

definition reference_streak :: "database \<Rightarrow> date \<Rightarrow> int \<Rightarrow> nat" where
  "reference_streak db today hid =
     reference_scan (status_on db hid) today
       (length (filter (\<lambda>r. t_habit_id r = hid) (habit_tracking db)))"

section \<open>Invariants of the tracking table\<close>

text \<open>The table's \<^verbatim>\<open>UNIQUE(habit_id, track_date)\<close>, and the rows of a habit on a date.\<close>

definition unique_tracking :: "database \<Rightarrow> bool" where
  "unique_tracking db = distinct (map (\<lambda>r. (t_habit_id r, track_date r)) (habit_tracking db))"

definition records_of :: "database \<Rightarrow> int \<Rightarrow> date \<Rightarrow> tracking_row list" where
  "records_of db hid d = filter (same_day hid d) (habit_tracking db)"

text \<open>
  What the clock adds: no row is dated after today, and every row's habit id is one the
  column can hold.
\<close>

definition well_dated :: "database \<Rightarrow> date \<Rightarrow> bool" where
  "well_dated db today =
     list_all (\<lambda>r. track_date r \<le> today \<and> sqlite_int (t_habit_id r)) (habit_tracking db)"

section \<open>Lists and lookups\<close>

lemma find_map_same:
  "(\<And>x. P (f x) = P x) \<Longrightarrow> find P (map f xs) = map_option f (find P xs)"
  by (induction xs) auto

lemma find_filter_conj: "find P (filter Q xs) = find (\<lambda>x. Q x \<and> P x) xs"
  by (induction xs) auto

lemma find_append_list:
  "find P (xs @ ys) = (case find P xs of None \<Rightarrow> find P ys | Some x \<Rightarrow> Some x)"
  by (induction xs) auto

lemma list_ex_find_None: "(\<not> list_ex P xs) = (find P xs = None)"
  by (induction xs) auto

lemma filter_nil_find: "(filter P xs = []) = (find P xs = None)"
  by (induction xs) auto

lemma distinct_key_filter_le1:
  "distinct (map k xs) \<Longrightarrow> length (filter (\<lambda>r. k r = a) xs) \<le> 1"
proof (induction xs)
  case Nil
  then show ?case by simp
next
  case (Cons x xs)
  show ?case
  proof (cases "k x = a")
    case True
    with Cons.prems have "a \<notin> k ` set xs" by auto
    then have "filter (\<lambda>r. k r = a) xs = []" by (auto simp: filter_empty_conv)
    with True show ?thesis by simp
  next
    case False
    with Cons show ?thesis by simp
  qed
qed

section \<open>Marking a habit\<close>

lemma same_day_key: "same_day hid d r = ((t_habit_id r, track_date r) = (hid, d))"
  by (auto simp: same_day_def)

lemma unique_tracking_le1:
  "unique_tracking db \<Longrightarrow> length (records_of db h d) \<le> 1"
  unfolding unique_tracking_def records_of_def same_day_key
  by (rule distinct_key_filter_le1)

lemma track_habit_tracking:
  "habit_tracking (fst (track_habit db today hid st)) =
     (if \<not> sqlite_int hid then habit_tracking db
      else if find (same_day hid today) (habit_tracking db) \<noteq> None
      then map (\<lambda>r. if same_day hid today r then r\<lparr>status := st\<rparr> else r) (habit_tracking db)
      else habit_tracking db @
        [\<lparr>tracking_id = autoincrement (map tracking_id (habit_tracking db)),
          t_habit_id = hid, track_date = today, status = st\<rparr>])"
  using list_ex_find_None [of "same_day hid today" "habit_tracking db"]
  by (auto simp: track_habit_def)

lemma track_habit_fresh:
  "snd (track_habit db today hid st) =
     (sqlite_int hid \<and> find (same_day hid today) (habit_tracking db) = None)"
  using list_ex_find_None [of "same_day hid today" "habit_tracking db"]
  by (auto simp: track_habit_def)

lemma track_habit_other_tables:
  "users (fst (track_habit db today hid st)) = users db"
  "habits (fst (track_habit db today hid st)) = habits db"
  by (auto simp: track_habit_def)

lemma keys_after_update:
  "map (\<lambda>r. (t_habit_id r, track_date r))
     (map (\<lambda>r. if same_day hid today r then r\<lparr>status := st\<rparr> else r) xs) =
   map (\<lambda>r. (t_habit_id r, track_date r)) xs"
  by (induction xs) auto

lemma find_None_key_notin:
  "find (same_day hid d) xs = None \<Longrightarrow> (hid, d) \<notin> set (map (\<lambda>r. (t_habit_id r, track_date r)) xs)"
  by (induction xs) (auto simp: same_day_def split: if_splits)

lemma track_habit_unique:
  "unique_tracking db \<Longrightarrow> unique_tracking (fst (track_habit db today hid st))"
  unfolding unique_tracking_def track_habit_tracking
  using find_None_key_notin [of hid today "habit_tracking db"]
  by (auto simp: keys_after_update simp del: map_map)

lemma records_of_after_track_same:
  assumes "sqlite_int hid" "unique_tracking db"
  shows "map status (records_of (fst (track_habit db today hid st)) hid today) = [st]"
proof (cases "find (same_day hid today) (habit_tracking db)")
  case None
  then have "filter (same_day hid today) (habit_tracking db) = []"
    by (simp add: filter_nil_find)
  with None assms show ?thesis
    by (simp add: records_of_def track_habit_tracking same_day_def)
next
  case (Some r)
  have le: "length (filter (same_day hid today) (habit_tracking db)) \<le> 1"
    using unique_tracking_le1 [OF assms(2)] by (simp add: records_of_def)
  have ne: "filter (same_day hid today) (habit_tracking db) \<noteq> []"
    using Some by (simp add: filter_nil_find)
  have eq: "filter (same_day hid today)
              (map (\<lambda>r. if same_day hid today r then r\<lparr>status := st\<rparr> else r) xs) =
            map (\<lambda>r. r\<lparr>status := st\<rparr>) (filter (same_day hid today) xs)" for xs
    by (induction xs) (auto simp: same_day_def)
  from le ne obtain x where "filter (same_day hid today) (habit_tracking db) = [x]"
    by (cases "filter (same_day hid today) (habit_tracking db)") auto
  with Some assms show ?thesis
    by (simp add: records_of_def track_habit_tracking eq)
qed

lemma status_on_after_track_same:
  assumes "sqlite_int hid"
  shows "status_on (fst (track_habit db today hid st)) hid today = Some st"
proof (cases "find (same_day hid today) (habit_tracking db)")
  case None
  with assms show ?thesis
    by (simp add: status_on_def track_habit_tracking find_append_list same_day_def)
next
  case (Some r)
  have "find (same_day hid today)
          (map (\<lambda>r. if same_day hid today r then r\<lparr>status := st\<rparr> else r) xs) =
        map_option (\<lambda>r. if same_day hid today r then r\<lparr>status := st\<rparr> else r)
          (find (same_day hid today) xs)" for xs
    by (rule find_map_same) (auto simp: same_day_def)
  moreover have "same_day hid today r" using Some by (auto simp: find_Some_iff)
  ultimately show ?thesis using Some assms
    by (simp add: status_on_def track_habit_tracking)
qed

lemma records_of_after_track_other:
  assumes "(h, d) \<noteq> (hid, today)"
  shows "records_of (fst (track_habit db today hid st)) h d = records_of db h d"
proof -
  have "filter (same_day h d)
          (map (\<lambda>r. if same_day hid today r then r\<lparr>status := st\<rparr> else r) xs) =
        filter (same_day h d) xs" for xs
    using assms by (induction xs) (auto simp: same_day_def)
  with assms show ?thesis
    by (auto simp: records_of_def track_habit_tracking same_day_def)
qed

lemma add_user_tracking: "habit_tracking (add_user a db today uid uname fname lname) = habit_tracking db"
  by (simp add: add_user_def Let_def)

lemma add_habit_tracking: "habit_tracking (fst (add_habit db today uid n d)) = habit_tracking db"
  by (simp add: add_habit_def Let_def)

lemma track_habit_well_dated:
  "well_dated db today \<Longrightarrow> well_dated (fst (track_habit db today hid st)) today"
  unfolding well_dated_def track_habit_tracking
  by (auto simp: list_all_iff)

lemma reachable_invariant: "reachable db today \<Longrightarrow> unique_tracking db \<and> well_dated db today"
proof (induction rule: reachable.induct)
  case (start today)
  show ?case by (simp add: init_db_def unique_tracking_def well_dated_def)
next
  case (next_day db today today')
  then show ?case by (auto simp: well_dated_def list_all_iff)
next
  case (user_added db today ADMIN_ID uid uname fname lname)
  then show ?case by (simp add: unique_tracking_def well_dated_def add_user_tracking)
next
  case (habit_added db today uid n d)
  then show ?case by (simp add: unique_tracking_def well_dated_def add_habit_tracking)
next
  case (habit_tracked db today hid st)
  then show ?case by (simp add: track_habit_unique track_habit_well_dated)
qed

text \<open>
  Claim C2. In every reachable database there is at most one tracking row for a habit and
  a date. Marking a habit (\<^verbatim>\<open>track_habit\<close>, for any habit id the column can hold) keeps
  that; it leaves exactly one row for the habit under the clock's date, with the status
  just given, and no row of another habit or another date changes; \<^verbatim>\<open>get_today_status\<close>
  then returns that status; the call returns True exactly when there was no row for the
  habit under that date. A second mark on the same day returns False, and the row and
  \<^verbatim>\<open>get_today_status\<close> carry the second status.
\<close>

theorem track_habit_upsert:
  assumes "reachable db today" and "sqlite_int hid"
  shows "(\<forall>h d. length (records_of db h d) \<le> 1) \<and>
         (case track_habit db today hid s1 of (db1, fresh1) \<Rightarrow>
            case track_habit db1 today hid s2 of (db2, fresh2) \<Rightarrow>
              (\<forall>h d. length (records_of db1 h d) \<le> 1) \<and>
              map status (records_of db1 hid today) = [s1] \<and>
              get_today_status db1 today hid = Some s1 \<and>
              fresh1 = (records_of db hid today = []) \<and>
              (\<forall>h d. (h, d) \<noteq> (hid, today) \<longrightarrow> records_of db1 h d = records_of db h d) \<and>
              map status (records_of db2 hid today) = [s2] \<and>
              get_today_status db2 today hid = Some s2 \<and>
              \<not> fresh2)"
proof -
  define db1 where "db1 = fst (track_habit db today hid s1)"
  define db2 where "db2 = fst (track_habit db1 today hid s2)"
  have u: "unique_tracking db" using assms(1) by (simp add: reachable_invariant)
  have u1: "unique_tracking db1" unfolding db1_def using u by (rule track_habit_unique)
  have a: "\<forall>h d. length (records_of db h d) \<le> 1" using unique_tracking_le1 [OF u] by blast
  have b: "\<forall>h d. length (records_of db1 h d) \<le> 1" using unique_tracking_le1 [OF u1] by blast
  have c: "map status (records_of db1 hid today) = [s1]"
    unfolding db1_def using assms(2) u by (rule records_of_after_track_same)
  have d: "get_today_status db1 today hid = Some s1"
    unfolding db1_def using assms(2) by (simp add: get_today_status_def status_on_after_track_same)
  have e: "snd (track_habit db today hid s1) = (records_of db hid today = [])"
    using assms(2) by (simp add: track_habit_fresh records_of_def filter_nil_find)
  have f: "\<forall>h d. (h, d) \<noteq> (hid, today) \<longrightarrow> records_of db1 h d = records_of db h d"
    unfolding db1_def by (simp add: records_of_after_track_other)
  have g: "map status (records_of db2 hid today) = [s2]"
    unfolding db2_def using assms(2) u1 by (rule records_of_after_track_same)
  have h: "get_today_status db2 today hid = Some s2"
    unfolding db2_def using assms(2) by (simp add: get_today_status_def status_on_after_track_same)
  have "records_of db1 hid today \<noteq> []" using c by auto
  then have i: "\<not> snd (track_habit db1 today hid s2)"
    by (simp add: track_habit_fresh records_of_def filter_nil_find)
  from a b c d e f g h i show ?thesis
    by (simp add: db1_def db2_def split_beta)
qed

text \<open>
  The theorem at a database holding one habit, marked missed and then completed on day 100.
\<close>

theorem track_habit_upsert_witness:
  "reachable (fst (add_habit init_db 100 7 (Some ''Read'') None)) 100 \<and> sqlite_int 1 \<and>
   track_habit (fst (add_habit init_db 100 7 (Some ''Read'') None)) 100 1 ''missed'' =
     (\<lparr>users = [],
       habits = [\<lparr>habit_id = 1, h_user_id = 7, habit_name = Some ''Read'',
                  habit_description = None, created_date = 100, is_active = True\<rparr>],
       habit_tracking = [\<lparr>tracking_id = 1, t_habit_id = 1, track_date = 100,
                          status = ''missed''\<rparr>]\<rparr>, True) \<and>
   snd (track_habit (fst (track_habit (fst (add_habit init_db 100 7 (Some ''Read'') None))
          100 1 ''missed'')) 100 1 ''completed'') = False \<and>
   get_today_status (fst (track_habit (fst (track_habit
          (fst (add_habit init_db 100 7 (Some ''Read'') None))
          100 1 ''missed'')) 100 1 ''completed'')) 100 1 = Some ''completed''"
proof -
  have r: "reachable (fst (add_habit init_db 100 7 (Some ''Read'') None)) 100"
    by (rule reachable.habit_added) (rule reachable.start)
  have s: "sqlite_int 1" by (simp add: sqlite_int_def)
  show ?thesis
    using r s track_habit_upsert [OF r s, of "''missed''" "''completed''"]
    by (simp add: split_beta track_habit_def add_habit_def init_db_def autoincrement_def
        sqlite_int_def same_day_def get_today_status_def status_on_def)
qed

section \<open>The streak\<close>

lemma reference_scan_cong:
  "(\<And>d. d \<le> e \<Longrightarrow> f d = g d) \<Longrightarrow> reference_scan f e n = reference_scan g e n"
  by (induction n arbitrary: e) auto

lemma streak_loop_scan:
  assumes "sorted_wrt (>) (map fst rs)" and "\<forall>d \<in> set (map fst rs). d \<le> cur"
  shows "streak_loop rs cur acc = acc + reference_scan (map_of rs) cur (length rs)"
  using assms
proof (induction rs arbitrary: cur acc)
  case Nil
  show ?case by simp
next
  case (Cons r rs)
  obtain rd st where r: "r = (rd, st)" by (cases r)
  from Cons.prems r have below: "\<forall>d \<in> set (map fst rs). d < rd" and rd: "rd \<le> cur"
    and srt: "sorted_wrt (>) (map fst rs)"
    by auto
  define f where "f = map_of (r # rs)"
  have f_cur: "f cur = (if rd = cur then Some st else map_of rs cur)"
    using r by (simp add: f_def)
  have f_below: "f d = map_of rs d" if "rd = cur" and "d \<le> cur - 1" for d
    using that r by (simp add: f_def)
  show ?case
  proof (cases "rd = cur \<and> st = ''completed''")
    case True
    from below True have "\<forall>d \<in> set (map fst rs). d \<le> cur - 1" by auto
    with srt have "streak_loop rs (cur - 1) (acc + 1) =
        acc + 1 + reference_scan (map_of rs) (cur - 1) (length rs)"
      by (rule Cons.IH)
    moreover have "reference_scan f (cur - 1) (length rs) =
        reference_scan (map_of rs) (cur - 1) (length rs)"
      by (rule reference_scan_cong) (use True f_below in blast)
    moreover have "streak_loop (r # rs) cur acc = streak_loop rs (cur - 1) (acc + 1)"
      using True r by simp
    moreover have "reference_scan f cur (length (r # rs)) =
        Suc (reference_scan f (cur - 1) (length rs))"
      using True f_cur by simp
    ultimately have "streak_loop (r # rs) cur acc =
        acc + reference_scan f cur (length (r # rs))"
      by (simp only: add_Suc_right add_Suc add_0_right Suc_eq_plus1)
    then show ?thesis by (simp only: f_def)
  next
    case False
    have "f cur \<noteq> Some ''completed''"
    proof (cases "rd = cur")
      case True
      with False f_cur show ?thesis by simp
    next
      case False
      with rd below have "cur \<notin> fst ` set rs" by force
      then have "map_of rs cur = None" by (simp add: map_of_eq_None_iff)
      with False f_cur show ?thesis by simp
    qed
    then have "reference_scan f cur (length (r # rs)) = 0" by simp
    moreover have "streak_loop (r # rs) cur acc = acc" using False r by auto
    ultimately have "streak_loop (r # rs) cur acc =
        acc + reference_scan f cur (length (r # rs))"
      by (simp only: add_0_right)
    then show ?thesis by (simp only: f_def)
  qed
qed

lemma reference_scan_run:
  "(\<And>k. k < n \<Longrightarrow> f (e - int k) = Some ''completed'') \<Longrightarrow>
   f (e - int n) \<noteq> Some ''completed'' \<Longrightarrow> n \<le> b \<Longrightarrow> reference_scan f e b = n"
proof (induction b arbitrary: e n)
  case 0
  then show ?case by simp
next
  case (Suc b)
  show ?case
  proof (cases n)
    case 0
    with Suc.prems show ?thesis by simp
  next
    case (Suc m)
    have first: "f e = Some ''completed''" using Suc.prems(1) [of 0] Suc by simp
    have "reference_scan f (e - 1) b = m"
    proof (rule Suc.IH)
      fix k assume "k < m"
      then have "f (e - int (Suc k)) = Some ''completed''" using Suc.prems(1) Suc by blast
      then show "f (e - 1 - int k) = Some ''completed''" by (simp add: algebra_simps)
    next
      show "f (e - 1 - int m) \<noteq> Some ''completed''"
        using Suc.prems(2) Suc by (simp add: algebra_simps)
    next
      show "m \<le> b" using Suc.prems(3) Suc by simp
    qed
    with first Suc show ?thesis by simp
  qed
qed

lemma distinct_dates_of_habit:
  "distinct (map (\<lambda>r. (t_habit_id r, track_date r)) xs) \<Longrightarrow>
   distinct (map track_date (filter (\<lambda>r. t_habit_id r = hid) xs))"
  by (induction xs) (auto simp: image_iff)

lemma map_of_rows:
  "map_of (map (\<lambda>r. (track_date r, status r)) xs) d =
   map_option status (find (\<lambda>r. track_date r = d) xs)"
  by (induction xs) auto

lemma find_unique_key:
  assumes "distinct (map k xs)" and "distinct (map k ys)" and "set xs = set ys"
  shows "find (\<lambda>r. k r = a) xs = find (\<lambda>r. k r = a) ys"
proof (cases "find (\<lambda>r. k r = a) xs")
  case None
  then have "\<forall>x \<in> set xs. k x \<noteq> a" by (simp add: find_None_iff)
  with assms(3) have "find (\<lambda>r. k r = a) ys = None" by (simp add: find_None_iff)
  with None show ?thesis by simp
next
  case (Some x)
  then have x: "x \<in> set xs" "k x = a" by (auto simp: find_Some_iff in_set_conv_nth)
  from assms(2) have inj: "inj_on k (set ys)" by (simp add: distinct_map)
  obtain y where y: "find (\<lambda>r. k r = a) ys = Some y"
    using x assms(3) by (cases "find (\<lambda>r. k r = a) ys") (auto simp: find_None_iff)
  then have "y \<in> set ys" "k y = a" by (auto simp: find_Some_iff in_set_conv_nth)
  with x inj assms(3) have "x = y" by (auto dest: inj_onD)
  with Some y show ?thesis by simp
qed

lemma same_day_fun: "same_day hid d = (\<lambda>r. t_habit_id r = hid \<and> track_date r = d)"
  by (rule ext) (simp add: same_day_def)

lemma select_records_sorted:
  assumes "unique_tracking db"
  shows "sorted_wrt (>) (map fst (select_records db hid))"
proof -
  let ?rows = "filter (\<lambda>r. t_habit_id r = hid) (habit_tracking db)"
  let ?key = "\<lambda>r::tracking_row. - track_date r"
  have "distinct (map track_date ?rows)"
    using assms unfolding unique_tracking_def by (rule distinct_dates_of_habit)
  then have d: "distinct ?rows" and i: "inj_on track_date (set ?rows)"
    by (simp_all only: distinct_map)
  from i have "inj_on ?key (set ?rows)" by (auto simp: inj_on_def)
  with d have "distinct (map ?key (sort_key ?key ?rows))" by (simp add: distinct_map)
  moreover have "sorted (map ?key (sort_key ?key ?rows))" by (rule sorted_sort_key)
  ultimately have "sorted_wrt (<) (map ?key (sort_key ?key ?rows))"
    by (simp add: strict_sorted_iff)
  then show ?thesis by (simp add: select_records_def sorted_wrt_map comp_def)
qed

lemma select_records_lookup:
  assumes "unique_tracking db"
  shows "map_of (select_records db hid) d = status_on db hid d"
proof -
  let ?rows = "filter (\<lambda>r. t_habit_id r = hid) (habit_tracking db)"
  let ?key = "\<lambda>r::tracking_row. - track_date r"
  have dd: "distinct (map track_date ?rows)"
    using assms unfolding unique_tracking_def by (rule distinct_dates_of_habit)
  then have "distinct ?rows" and "inj_on track_date (set ?rows)"
    by (simp_all only: distinct_map)
  then have "distinct (map track_date (sort_key ?key ?rows))" by (simp add: distinct_map)
  then have "find (\<lambda>r. track_date r = d) (sort_key ?key ?rows) =
      find (\<lambda>r. track_date r = d) ?rows"
    using dd by (rule find_unique_key) simp
  then show ?thesis
    by (simp add: select_records_def map_of_rows status_on_def find_filter_conj same_day_fun)
qed

lemma select_records_length:
  "length (select_records db hid) =
   length (filter (\<lambda>r. t_habit_id r = hid) (habit_tracking db))"
  by (simp add: select_records_def)

lemma select_records_dates:
  assumes "well_dated db today"
  shows "\<forall>d \<in> set (map fst (select_records db hid)). d \<le> today"
  using assms by (auto simp: select_records_def well_dated_def list_all_iff)

lemma get_streak_is_reference:
  assumes "unique_tracking db" and "well_dated db today"
  shows "get_streak db today hid = reference_streak db today hid"
proof (cases "sqlite_int hid")
  case False
  with assms(2) have "filter (\<lambda>r. t_habit_id r = hid) (habit_tracking db) = []"
    by (auto simp: well_dated_def list_all_iff filter_empty_conv)
  with False show ?thesis by (simp add: get_streak_def reference_streak_def)
next
  case True
  have "streak_loop (select_records db hid) today 0 =
      0 + reference_scan (map_of (select_records db hid)) today (length (select_records db hid))"
    using select_records_sorted [OF assms(1)] select_records_dates [OF assms(2)]
    by (rule streak_loop_scan)
  moreover have "map_of (select_records db hid) = status_on db hid"
    using select_records_lookup [OF assms(1)] by (rule ext)
  ultimately have "streak_loop (select_records db hid) today 0 = reference_streak db today hid"
    by (simp add: reference_streak_def select_records_length)
  moreover have "select_records db hid = [] \<Longrightarrow> reference_streak db today hid = 0"
    using select_records_length [of db hid] by (simp add: reference_streak_def)
  ultimately show ?thesis using True by (simp add: get_streak_def Let_def)
qed

lemma status_on_row:
  "status_on db hid d = Some s \<Longrightarrow>
   d \<in> track_date ` set (filter (\<lambda>r. t_habit_id r = hid) (habit_tracking db))"
  by (auto simp: status_on_def find_Some_iff same_day_def in_set_conv_nth image_iff)

lemma completed_run_rows:
  assumes "\<And>k. k \<le> N \<Longrightarrow> status_on db hid (today - int k) = Some ''completed''"
  shows "N + 1 \<le> length (filter (\<lambda>r. t_habit_id r = hid) (habit_tracking db))"
proof -
  let ?rows = "filter (\<lambda>r. t_habit_id r = hid) (habit_tracking db)"
  have sub: "(\<lambda>k. today - int k) ` {..N} \<subseteq> track_date ` set ?rows"
    using assms status_on_row by blast
  have "inj_on (\<lambda>k. today - int k) {..N}" by (simp add: inj_on_def)
  then have "card ((\<lambda>k. today - int k) ` {..N}) = N + 1" by (simp add: card_image)
  then have "N + 1 \<le> card (track_date ` set ?rows)"
    using card_mono [OF _ sub] by simp
  also have "\<dots> \<le> card (set ?rows)" by (rule card_image_le) simp
  also have "\<dots> \<le> length ?rows" by (rule card_length)
  finally show ?thesis .
qed

lemma reference_scan_counted:
  "k < reference_scan f e b \<Longrightarrow> f (e - int k) = Some ''completed''"
proof (induction b arbitrary: e k)
  case 0
  then show ?case by simp
next
  case (Suc b)
  from Suc.prems have first: "f e = Some ''completed''" by (simp split: if_splits)
  show ?case
  proof (cases k)
    case 0
    with first show ?thesis by simp
  next
    case (Suc j)
    with Suc.prems first have "j < reference_scan f (e - 1) b" by simp
    then have "f (e - 1 - int j) = Some ''completed''" by (rule Suc.IH)
    with Suc show ?thesis by (simp add: algebra_simps)
  qed
qed

lemma reference_scan_stopped:
  "reference_scan f e b < b \<Longrightarrow> f (e - int (reference_scan f e b)) \<noteq> Some ''completed''"
proof (induction b arbitrary: e)
  case 0
  then show ?case by simp
next
  case (Suc b)
  show ?case
  proof (cases "f e = Some ''completed''")
    case True
    with Suc.prems have "reference_scan f (e - 1) b < b" by simp
    then have "f (e - 1 - int (reference_scan f (e - 1) b)) \<noteq> Some ''completed''"
      by (rule Suc.IH)
    with True show ?thesis by (simp add: algebra_simps)
  next
    case False
    then show ?thesis by simp
  qed
qed

lemma reference_streak_counted:
  "k < reference_streak db today hid \<Longrightarrow> status_on db hid (today - int k) = Some ''completed''"
  unfolding reference_streak_def by (rule reference_scan_counted)

lemma reference_streak_stopped:
  "status_on db hid (today - int (reference_streak db today hid)) \<noteq> Some ''completed''"
proof
  let ?n = "reference_streak db today hid"
  let ?b = "length (filter (\<lambda>r. t_habit_id r = hid) (habit_tracking db))"
  assume last: "status_on db hid (today - int ?n) = Some ''completed''"
  have "status_on db hid (today - int k) = Some ''completed''" if "k \<le> ?n" for k
    using that last reference_streak_counted [of k db today hid] by (cases "k = ?n") auto
  then have "?n + 1 \<le> ?b" by (rule completed_run_rows)
  then have "reference_scan (status_on db hid) today ?b < ?b"
    by (simp add: reference_streak_def)
  then have "status_on db hid (today - int ?n) \<noteq> Some ''completed''"
    unfolding reference_streak_def by (rule reference_scan_stopped)
  with last show False by simp
qed

lemma reference_streak_run:
  assumes "\<And>k. k \<le> N \<Longrightarrow> status_on db hid (today - int k) = Some ''completed''"
    and "status_on db hid (today - int N - 1) \<noteq> Some ''completed''"
  shows "reference_streak db today hid = N + 1"
  unfolding reference_streak_def
proof (rule reference_scan_run)
  fix k assume "k < N + 1"
  then show "status_on db hid (today - int k) = Some ''completed''" using assms(1) by simp
next
  show "status_on db hid (today - int (N + 1)) \<noteq> Some ''completed''"
    using assms(2) by (simp add: algebra_simps)
next
  show "N + 1 \<le> length (filter (\<lambda>r. t_habit_id r = hid) (habit_tracking db))"
    using assms(1) by (rule completed_run_rows)
qed

text \<open>
  The clock matters: were a row dated after today (a clock set back), the loop would stop
  at that first row, while a lookup of today's row would still count it.
\<close>

lemma get_streak_after_clock_set_back:
  "get_streak
     \<lparr>users = [], habits = [], habit_tracking =
        [\<lparr>tracking_id = 1, t_habit_id = 5, track_date = 11, status = ''completed''\<rparr>,
         \<lparr>tracking_id = 2, t_habit_id = 5, track_date = 12, status = ''completed''\<rparr>]\<rparr>
     11 5 = 0 \<and>
   reference_streak
     \<lparr>users = [], habits = [], habit_tracking =
        [\<lparr>tracking_id = 1, t_habit_id = 5, track_date = 11, status = ''completed''\<rparr>,
         \<lparr>tracking_id = 2, t_habit_id = 5, track_date = 12, status = ''completed''\<rparr>]\<rparr>
     11 5 = 1"
  by (simp add: get_streak_def select_records_def sqlite_int_def reference_streak_def
      status_on_def same_day_def)

text \<open>
  Claim C1. In every reachable database and for every habit id, \<^verbatim>\<open>get_streak\<close> returns
  what the backward scan of the specification returns. With no tracking row for the habit
  it returns 0. When the rows of today and of the \<open>N\<close> days before it are all completed
  and the day before those has no completed row (a missed row or a gap), it returns
  \<open>N + 1\<close>. In general the result \<open>n\<close> is the length of the run of completed days that
  ends today: the \<open>n\<close> days from today back are completed and the day after them, going
  back, is not.
\<close>

theorem get_streak_reference:
  assumes "reachable db today"
  shows "get_streak db today hid = reference_streak db today hid \<and>
         (filter (\<lambda>r. t_habit_id r = hid) (habit_tracking db) = [] \<longrightarrow>
            get_streak db today hid = 0) \<and>
         ((\<forall>k \<le> N. status_on db hid (today - int k) = Some ''completed'') \<and>
          status_on db hid (today - int N - 1) \<noteq> Some ''completed'' \<longrightarrow>
            get_streak db today hid = N + 1) \<and>
         (\<forall>k < get_streak db today hid. status_on db hid (today - int k) = Some ''completed'') \<and>
         status_on db hid (today - int (get_streak db today hid)) \<noteq> Some ''completed''"
proof -
  have inv: "unique_tracking db" "well_dated db today"
    using assms by (simp_all add: reachable_invariant)
  have eq: "get_streak db today hid = reference_streak db today hid"
    using inv by (rule get_streak_is_reference)
  have none: "filter (\<lambda>r. t_habit_id r = hid) (habit_tracking db) = [] \<longrightarrow>
      get_streak db today hid = 0"
    by (simp add: eq reference_streak_def)
  have run: "(\<forall>k \<le> N. status_on db hid (today - int k) = Some ''completed'') \<and>
      status_on db hid (today - int N - 1) \<noteq> Some ''completed'' \<longrightarrow>
      get_streak db today hid = N + 1"
    unfolding eq using reference_streak_run [of N db hid today] by blast
  have counted: "\<forall>k < get_streak db today hid.
      status_on db hid (today - int k) = Some ''completed''"
    unfolding eq using reference_streak_counted by blast
  have stopped: "status_on db hid (today - int (get_streak db today hid)) \<noteq> Some ''completed''"
    unfolding eq by (rule reference_streak_stopped)
  from eq none run counted stopped show ?thesis by blast
qed

text \<open>
  The theorem at a database reached by marking habit 5 missed on day 9 and completed on
  days 10 and 11: on day 11 the streak is 2.
\<close>

theorem get_streak_reference_witness:
  "reachable
     (fst (track_habit (fst (track_habit (fst (track_habit init_db 9 5 ''missed''))
        10 5 ''completed'')) 11 5 ''completed'')) 11 \<and>
   get_streak
     (fst (track_habit (fst (track_habit (fst (track_habit init_db 9 5 ''missed''))
        10 5 ''completed'')) 11 5 ''completed'')) 11 5 = 2 \<and>
   reference_streak
     (fst (track_habit (fst (track_habit (fst (track_habit init_db 9 5 ''missed''))
        10 5 ''completed'')) 11 5 ''completed'')) 11 5 = 2"
proof -
  let ?db1 = "fst (track_habit init_db 9 5 ''missed'')"
  let ?db2 = "fst (track_habit ?db1 10 5 ''completed'')"
  let ?db3 = "fst (track_habit ?db2 11 5 ''completed'')"
  have "reachable ?db1 9" by (rule reachable.habit_tracked) (rule reachable.start)
  then have "reachable ?db1 10" by (rule reachable.next_day) simp
  then have "reachable ?db2 10" by (rule reachable.habit_tracked)
  then have "reachable ?db2 11" by (rule reachable.next_day) simp
  then have r: "reachable ?db3 11" by (rule reachable.habit_tracked)
  have db3: "?db3 = \<lparr>users = [], habits = [], habit_tracking =
      [\<lparr>tracking_id = 1, t_habit_id = 5, track_date = 9, status = ''missed''\<rparr>,
       \<lparr>tracking_id = 2, t_habit_id = 5, track_date = 10, status = ''completed''\<rparr>,
       \<lparr>tracking_id = 3, t_habit_id = 5, track_date = 11, status = ''completed''\<rparr>]\<rparr>"
    by (simp add: track_habit_def init_db_def sqlite_int_def same_day_def autoincrement_def)
  have "get_streak ?db3 11 5 = 2"
    unfolding db3
    by (simp add: get_streak_def select_records_def sqlite_int_def)
  with r get_streak_reference [OF r, of 5 1] show ?thesis by simp
qed

section \<open>The broadcast loop\<close>

lemma deliveries_append: "deliveries (xs @ ys) = deliveries xs @ deliveries ys"
  by (induction xs rule: deliveries.induct) auto

lemma broadcast_loop_counts:
  "fst (broadcast_loop cm n ius sc fc sent) =
     sc + length (filter snd (map (outcome cm) ius)) \<and>
   fst (snd (broadcast_loop cm n ius sc fc sent)) =
     fc + length (filter (\<lambda>d. \<not> snd d) (map (outcome cm) ius)) \<and>
   deliveries (snd (snd (broadcast_loop cm n ius sc fc sent))) =
     deliveries sent @ map (outcome cm) ius"
proof (induction ius arbitrary: sc fc sent)
  case Nil
  show ?case by simp
next
  case (Cons iu ius)
  obtain i u where iu: "iu = (i, u)" by (cases iu)
  show ?case
    unfolding iu by (simp add: Let_def Cons.IH outcome_def deliveries_append)
qed

lemma outcome_recipients:
  "length ns = length us \<Longrightarrow> map fst (map (outcome cm) (zip ns us)) = map u_user_id us"
  by (induction ns us rule: list_induct2) (auto simp: outcome_def)

lemma filter_split_length:
  "length (filter P xs) + length (filter (\<lambda>x. \<not> P x) xs) = length xs"
  by (induction xs) auto

text \<open>
  Claim C4. For every recipient list and every pattern of deliveries that raise, the loop
  calls \<^verbatim>\<open>copy_message\<close> once for each recipient, in the order of the list, whatever
  the earlier calls did; each outcome is counted on its own, so the successes and the
  failures are those of the calls and add up to the length of the list. When the list is
  not empty, the final text reports the length of the list, these two counts and the
  percentage of successes; for the empty list the division in that text raises.
\<close>

theorem broadcast_partial_failures:
  assumes "is_admin ADMIN_ID from_user" and "text \<noteq> Some ''/cancel''"
  shows "case broadcast_loop copy_message (length users_snapshot)
                (zip [1 ..< Suc (length users_snapshot)] users_snapshot) 0 0
                [Send (Broadcast_started (length users_snapshot))] of
           (success_count, fail_count, sent) \<Rightarrow>
             map fst (deliveries sent) = map u_user_id users_snapshot \<and>
             deliveries sent =
               map (outcome copy_message)
                 (zip [1 ..< Suc (length users_snapshot)] users_snapshot) \<and>
             success_count = length (filter snd (deliveries sent)) \<and>
             fail_count = length (filter (\<lambda>d. \<not> snd d) (deliveries sent)) \<and>
             success_count + fail_count = length users_snapshot \<and>
             (users_snapshot \<noteq> [] \<longrightarrow>
                process_broadcast_message ADMIN_ID from_user s text users_snapshot copy_message =
                  Inr (clear s,
                    sent @ [Edit_text (Broadcast_done (length users_snapshot) success_count
                      fail_count (of_nat success_count / of_nat (length users_snapshot) * 100))]))"
proof -
  let ?n = "length users_snapshot"
  let ?ius = "zip [1 ..< Suc ?n] users_snapshot"
  obtain sc fc sent where loop:
    "broadcast_loop copy_message ?n ?ius 0 0 [Send (Broadcast_started ?n)] = (sc, fc, sent)"
    by (cases "broadcast_loop copy_message ?n ?ius 0 0 [Send (Broadcast_started ?n)]")
  from broadcast_loop_counts [of copy_message ?n ?ius 0 0 "[Send (Broadcast_started ?n)]"]
  have sc: "sc = length (filter snd (map (outcome copy_message) ?ius))"
    and fc: "fc = length (filter (\<lambda>d. \<not> snd d) (map (outcome copy_message) ?ius))"
    and ds: "deliveries sent = map (outcome copy_message) ?ius"
    unfolding loop by (simp_all del: upt_Suc)
  have order: "map fst (deliveries sent) = map u_user_id users_snapshot"
    unfolding ds by (rule outcome_recipients) (simp del: upt_Suc)
  have "sc + fc = length (map (outcome copy_message) ?ius)"
    unfolding sc fc by (rule filter_split_length)
  then have total: "sc + fc = ?n" by (simp del: upt_Suc)
  have summary: "users_snapshot \<noteq> [] \<longrightarrow>
      process_broadcast_message ADMIN_ID from_user s text users_snapshot copy_message =
        Inr (clear s, sent @ [Edit_text (Broadcast_done ?n sc fc (of_nat sc / of_nat ?n * 100))])"
    using assms loop by (simp add: process_broadcast_message_def Let_def del: upt_Suc)
  from order ds sc fc total summary show ?thesis
    unfolding loop by simp
qed

text \<open>
  Three recipients, the second delivery raises: the summary reports 3 recipients, 2
  delivered, 1 failed, and 200/3 percent, which is 66.7 to one decimal.
\<close>

theorem broadcast_partial_failures_witness:
  "is_admin 1 1 \<and>
   process_broadcast_message 1 1 \<lparr>state = Some waiting_for_message, data_habit_name = None\<rparr>
     (Some ''hello'')
     [\<lparr>u_user_id = 10, username = None, first_name = None, last_name = None,
        registered_date = 3, is_admin_col = False\<rparr>,
      \<lparr>u_user_id = 20, username = None, first_name = None, last_name = None,
        registered_date = 2, is_admin_col = False\<rparr>,
      \<lparr>u_user_id = 30, username = None, first_name = None, last_name = None,
        registered_date = 1, is_admin_col = False\<rparr>]
     (\<lambda>i uid. i \<noteq> 2) =
   Inr (\<lparr>state = None, data_habit_name = None\<rparr>,
     [Send (Broadcast_started 3), Copy_message 10 True, Copy_message 20 False,
      Copy_message 30 True, Edit_text (Broadcast_done 3 2 1 (200 / 3))]) \<and>
   \<bar>(200 / 3 :: rat) - 667 / 10\<bar> < 5 / 100"
proof -
  have a: "is_admin 1 1" by (simp add: is_admin_def)
  have t: "Some ''hello'' \<noteq> Some ''/cancel''" by simp
  note inst = broadcast_partial_failures [OF a t,
    where copy_message = "(\<lambda>i uid. i \<noteq> 2)"
      and users_snapshot =
       "[\<lparr>u_user_id = 10, username = None, first_name = None, last_name = None,
          registered_date = 3, is_admin_col = False\<rparr>,
        \<lparr>u_user_id = 20, username = None, first_name = None, last_name = None,
          registered_date = 2, is_admin_col = False\<rparr>,
        \<lparr>u_user_id = 30, username = None, first_name = None, last_name = None,
          registered_date = 1, is_admin_col = False\<rparr>]"
      and s = "\<lparr>state = Some waiting_for_message, data_habit_name = None\<rparr>"]
  have n: "[1 ..< Suc 3] = [1, 2, 3]" by (simp add: upt_rec)
  show ?thesis using a inst
    by (simp add: n clear_def)
qed

text \<open>
  Claim C3. With an empty recipient list the final text is never built: the division by
  \<^verbatim>\<open>total_users\<close> raises ZeroDivisionError, nothing guards it, and the handler ends with
  that exception instead of a summary.
\<close>

theorem broadcast_no_recipients:
  "process_broadcast_message 1 1 \<lparr>state = Some waiting_for_message, data_habit_name = None\<rparr>
     (Some ''hello'') [] (\<lambda>i uid. True) = Inl ZeroDivisionError"
  by (simp add: process_broadcast_message_def is_admin_def)

section \<open>Routing of button payloads\<close>

lemma split_str_nonempty: "split_str sep s \<noteq> []"
  by (induction s) auto

lemma split_str_length:
  "length (split_str sep s) = Suc (length (filter (\<lambda>c. c = sep) s))"
proof (induction s)
  case Nil
  show ?case by simp
next
  case (Cons c cs)
  have "length (tl (split_str sep cs)) = length (filter (\<lambda>c. c = sep) cs)"
    using Cons.IH by simp
  with Cons.IH show ?case by simp
qed

lemma habit_stats_parts: "3 \<le> length (split_str CHR ''_'' (''habit_stats_'' @ rest))"
  by (simp add: split_str_length)

lemma route_habit_stats: "route_callback (''habit_stats_'' @ rest) = Some Callback_habit_stats"
  by (simp add: route_callback_def callback_handlers_def startswith_def)

lemma route_habit_detail:
  assumes "route_callback data = Some Callback_habit_detail"
  shows "startswith data ''habit_'' \<and> \<not> startswith data ''habit_stats_''"
  using assms
  by (simp add: route_callback_def callback_handlers_def split: if_splits)

lemma habit_detail_acts:
  assumes "callback_habit_detail db today data \<noteq> []"
  shows "length (split_str CHR ''_'' data) = 2 \<and> split_str CHR ''_'' data ! 0 = ''habit''"
  using assms by (simp add: callback_habit_detail_def Let_def split: if_splits)

text \<open>
  Claim C5. Every payload that begins with \<^verbatim>\<open>habit_stats_\<close> is routed to the statistics
  handler: its filter is registered before the filter of the general prefix \<^verbatim>\<open>habit_\<close>,
  so a payload routed to the habit-detail handler never begins with \<^verbatim>\<open>habit_stats_\<close>.
  The habit-detail handler checks the payload again: called with such a payload it returns
  without sending anything, and it acts only on a payload of exactly two parts of which
  the first is \<^verbatim>\<open>habit\<close>.
\<close>

theorem habit_stats_routing:
  "route_callback (''habit_stats_'' @ rest) = Some Callback_habit_stats \<and>
   callback_habit_detail db today (''habit_stats_'' @ rest) = [] \<and>
   (Startswith ''habit_stats_'', Callback_habit_stats) \<in>
     set (takeWhile (\<lambda>fh. snd fh \<noteq> Callback_habit_detail) callback_handlers) \<and>
   (route_callback data = Some Callback_habit_detail \<longrightarrow>
      startswith data ''habit_'' \<and> \<not> startswith data ''habit_stats_'') \<and>
   (callback_habit_detail db today data \<noteq> [] \<longrightarrow>
      length (split_str CHR ''_'' data) = 2 \<and> split_str CHR ''_'' data ! 0 = ''habit'')"
proof -
  have "callback_habit_detail db today d = []" if "length (split_str CHR ''_'' d) \<noteq> 2" for d
    using that by (simp add: callback_habit_detail_def Let_def)
  moreover have "length (split_str CHR ''_'' (''habit_stats_'' @ rest)) \<noteq> 2"
    using habit_stats_parts [of rest] by linarith
  ultimately have ignored: "callback_habit_detail db today (''habit_stats_'' @ rest) = []"
    by blast
  have before: "(Startswith ''habit_stats_'', Callback_habit_stats) \<in>
      set (takeWhile (\<lambda>fh. snd fh \<noteq> Callback_habit_detail) callback_handlers)"
    by (simp add: callback_handlers_def)
  from route_habit_stats ignored before route_habit_detail habit_detail_acts
  show ?thesis by blast
qed

text \<open>
  The payloads \<^verbatim>\<open>habit_stats_42\<close> and \<^verbatim>\<open>habit_42\<close> on the empty database.
\<close>

theorem habit_stats_routing_witness:
  "route_callback ''habit_stats_42'' = Some Callback_habit_stats \<and>
   callback_habit_detail init_db 100 ''habit_stats_42'' = [] \<and>
   route_callback ''habit_42'' = Some Callback_habit_detail \<and>
   callback_habit_detail init_db 100 ''habit_42'' = [Answer (Alert Habit_not_found)] \<and>
   split_str CHR ''_'' ''habit_42'' = [''habit'', ''42'']"
proof -
  have r: "route_callback ''habit_42'' = Some Callback_habit_detail"
    by (simp add: route_callback_def callback_handlers_def startswith_def)
  have d: "callback_habit_detail init_db 100 ''habit_42'' = [Answer (Alert Habit_not_found)]"
    by (simp add: callback_habit_detail_def py_int_def int_space_def is_digit_def
        digits_value_def get_habit_def init_db_def sqlite_int_def)
  show ?thesis
    using r d habit_stats_routing [of "''42''" init_db 100 "''habit_42''"]
    by simp
qed

section \<open>The habit name\<close>

lemma strip_unpadded:
  assumes "text \<noteq> []" and "\<not> isspace (hd text)" and "\<not> isspace (last text)"
  shows "strip text = text"
proof -
  from assms(1,2) have "dropWhile isspace text = text" by (cases "text") auto
  moreover from assms(1,3) have "dropWhile isspace (rev text) = rev text"
    by (cases "rev text") (auto simp: last_rev [symmetric] simp del: last_rev)
  ultimately show ?thesis by (simp add: strip_def)
qed

text \<open>
  Claim C6, as amended. \<^verbatim>\<open>process_habit_name\<close> validates the length of the text after
  \<^verbatim>\<open>strip()\<close>, not of the text received. A stripped length below 3 (so 1 and 2, and
  also 0) is rejected with the too-short prompt and a stripped length above 100 (so 101)
  with the too-long prompt; in both cases the session is returned unchanged, so it stays
  in \<^verbatim>\<open>waiting_for_habit_name\<close>. A stripped length from 3 to 100, both included, is
  accepted: the stripped name is stored and the state becomes
  \<^verbatim>\<open>waiting_for_habit_description\<close>. For a text that neither begins nor ends with white
  space the stripped text is the text itself.
\<close>

theorem habit_name_stripped_length:
  "(length (strip text) < 3 \<longrightarrow>
      process_habit_name s (Some text) = Inr (s, [Send Name_too_short])) \<and>
   (100 < length (strip text) \<longrightarrow>
      process_habit_name s (Some text) = Inr (s, [Send Name_too_long])) \<and>
   (3 \<le> length (strip text) \<and> length (strip text) \<le> 100 \<longrightarrow>
      process_habit_name s (Some text) =
        Inr (s\<lparr>data_habit_name := Some (strip text),
               state := Some waiting_for_habit_description\<rparr>,
             [Send Ask_description])) \<and>
   (text \<noteq> [] \<and> \<not> isspace (hd text) \<and> \<not> isspace (last text) \<longrightarrow> strip text = text)"
  using strip_unpadded [of "text"]
  by (simp add: process_habit_name_def Let_def)

text \<open>The names \<^verbatim>\<open>abc\<close>, accepted, and \<^verbatim>\<open>ab\<close>, rejected.\<close>

theorem habit_name_stripped_length_witness:
  "strip ''abc'' = ''abc'' \<and>
   process_habit_name \<lparr>state = Some waiting_for_habit_name, data_habit_name = None\<rparr>
     (Some ''abc'') =
   Inr (\<lparr>state = Some waiting_for_habit_description, data_habit_name = Some ''abc''\<rparr>,
        [Send Ask_description]) \<and>
   process_habit_name \<lparr>state = Some waiting_for_habit_name, data_habit_name = None\<rparr>
     (Some ''ab'') =
   Inr (\<lparr>state = Some waiting_for_habit_name, data_habit_name = None\<rparr>,
        [Send Name_too_short])"
proof -
  have a: "strip ''abc'' = ''abc''" by (simp add: strip_def isspace_def)
  have b: "strip ''ab'' = ''ab''" by (simp add: strip_def isspace_def)
  show ?thesis
    using a
      habit_name_stripped_length [of "''abc''"
        "\<lparr>state = Some waiting_for_habit_name, data_habit_name = None\<rparr>"]
      habit_name_stripped_length [of "''ab''"
        "\<lparr>state = Some waiting_for_habit_name, data_habit_name = None\<rparr>"]
    by (simp add: b)
qed

text \<open>
  The claim as stated fails for a text with white space at an end: the three characters
  \<^verbatim>\<open>ab\<close> and a space are rejected as too short.
\<close>

theorem habit_name_padded_rejected:
  "length ''ab '' = 3 \<and>
   process_habit_name \<lparr>state = Some waiting_for_habit_name, data_habit_name = None\<rparr>
     (Some ''ab '') =
   Inr (\<lparr>state = Some waiting_for_habit_name, data_habit_name = None\<rparr>,
        [Send Name_too_short])"
  by (simp add: process_habit_name_def strip_def isspace_def)

section \<open>Malformed payloads\<close>

text \<open>
  What each handler does with a payload whose id part is missing or is not an integer, and
  with a well-formed id that matches no habit.
\<close>

lemma mark_habit_malformed:
  "habit_id_arg data 1 = Inl e \<Longrightarrow>
   mark_habit st fresh updated db today from_user data = (db, [Answer (Alert Error_occurred)])"
  by (simp add: mark_habit_def)

lemma habit_stats_malformed:
  "habit_id_arg data 2 = Inl e \<Longrightarrow>
   callback_habit_stats db today data = [Answer (Alert Error_occurred), Answer Ack]"
  by (simp add: callback_habit_stats_def)

lemma habit_stats_not_found:
  "habit_id_arg data 2 = Inr hid \<Longrightarrow> get_habit db hid = None \<Longrightarrow>
   callback_habit_stats db today data = [Answer (Alert Habit_not_found)]"
  by (simp add: callback_habit_stats_def)

lemma habit_detail_malformed:
  assumes "habit_id_arg data 1 = Inl e \<or> length (split_str CHR ''_'' data) \<noteq> 2 \<or>
           split_str CHR ''_'' data ! 0 \<noteq> ''habit''"
  shows "silent (callback_habit_detail db today data)"
  using assms
  by (auto simp: callback_habit_detail_def habit_id_arg_def silent_def Let_def
      split: option.splits if_splits)

lemma habit_detail_not_found:
  assumes "length (split_str CHR ''_'' data) = 2" and "split_str CHR ''_'' data ! 0 = ''habit''"
    and "habit_id_arg data 1 = Inr hid" and "get_habit db hid = None"
  shows "callback_habit_detail db today data = [Answer (Alert Habit_not_found)]"
  using assms
  by (auto simp: callback_habit_detail_def habit_id_arg_def Let_def split: option.splits)

lemmas parse_simps = habit_id_arg_def py_int_def int_space_def is_digit_def digits_value_def

text \<open>
  Claim C7. The claim holds of the habit-detail handler, whose \<^verbatim>\<open>except ValueError: pass\<close>
  drops \<^verbatim>\<open>habit_xyz\<close> with nothing but the bare answer. It fails in the three other
  handlers with an id: they have no branch for ValueError, so the \<^verbatim>\<open>int()\<close> that fails
  on \<^verbatim>\<open>complete_abc\<close>, \<^verbatim>\<open>miss_abc\<close> or \<^verbatim>\<open>habit_stats_abc\<close> ends in their
  \<^verbatim>\<open>except Exception\<close> branch, which shows the user the generic error alert. The
  database is left as it was.
\<close>

theorem malformed_complete_alert:
  "callback_complete_habit init_db 100 7 ''complete_abc'' =
     (init_db, [Answer (Alert Error_occurred)]) \<and>
   \<not> silent (snd (callback_complete_habit init_db 100 7 ''complete_abc'')) \<and>
   callback_miss_habit init_db 100 7 ''miss_abc'' =
     (init_db, [Answer (Alert Error_occurred)]) \<and>
   \<not> silent (snd (callback_miss_habit init_db 100 7 ''miss_abc'')) \<and>
   callback_habit_stats init_db 100 ''habit_stats_abc'' =
     [Answer (Alert Error_occurred), Answer Ack] \<and>
   \<not> silent (callback_habit_stats init_db 100 ''habit_stats_abc'') \<and>
   callback_habit_detail init_db 100 ''habit_xyz'' = [Answer Ack] \<and>
   silent (callback_habit_detail init_db 100 ''habit_xyz'')"
  by (simp add: callback_complete_habit_def callback_miss_habit_def mark_habit_def
      callback_habit_stats_def callback_habit_detail_def parse_simps silent_def)

section \<open>Statistics of a habit without marks\<close>

text \<open>
  Claim C8. For a habit without any mark the query of \<^verbatim>\<open>get_habit_stats\<close> returns the
  row (0, 0, NULL, NULL), and \<^verbatim>\<open>stats[0] is not None\<close> holds for the count 0: the
  handler takes the branch with the counts. It prints 0 completed, 0 missed, the streak
  and the two missing dates, and leaves the percentage line out, since \<^verbatim>\<open>total > 0\<close>
  fails; the text "no data yet" of the other branch is not sent. No division by zero takes
  place.
\<close>

theorem habit_stats_no_marks:
  "callback_habit_stats
     \<lparr>users = [],
      habits = [\<lparr>habit_id = 1, h_user_id = 7, habit_name = Some ''Read'',
                 habit_description = Some no_description, created_date = 100,
                 is_active = True\<rparr>],
      habit_tracking = []\<rparr>
     100 ''habit_stats_1'' =
   [Edit_text (Habit_stats_text (Some ''Read'') (Stats_lines 0 0 0 None None None)),
    Answer Ack]"
  by (simp add: callback_habit_stats_def parse_simps get_habit_def get_habit_stats_def
      get_streak_def select_records_def stats_text_def sqlite_int_def)

section \<open>The owner of a habit\<close>

text \<open>
  Claim C9. A user who has never sent \<^verbatim>\<open>/start\<close> has no row in the users table, yet
  can press the new-habit button, send a name and skip the description: the habit is
  stored with that user's id. The database reached has a habit whose owner does not exist.
\<close>

theorem habit_of_unregistered_user:
  "callback_new_habit \<lparr>state = None, data_habit_name = None\<rparr> =
     (\<lparr>state = Some waiting_for_habit_name, data_habit_name = None\<rparr>,
      [Edit_text Ask_habit_name, Answer Ack]) \<and>
   process_habit_name \<lparr>state = Some waiting_for_habit_name, data_habit_name = None\<rparr>
     (Some ''Read'') =
     Inr (\<lparr>state = Some waiting_for_habit_description, data_habit_name = Some ''Read''\<rparr>,
          [Send Ask_description]) \<and>
   process_habit_description init_db 100 7
     \<lparr>state = Some waiting_for_habit_description, data_habit_name = Some ''Read''\<rparr>
     (Some ''/skip'') =
     Inr (\<lparr>users = [],
            habits = [\<lparr>habit_id = 1, h_user_id = 7, habit_name = Some ''Read'',
                       habit_description = Some no_description, created_date = 100,
                       is_active = True\<rparr>],
            habit_tracking = []\<rparr>,
          \<lparr>state = None, data_habit_name = None\<rparr>,
          [Send (Habit_created (Some ''Read''))]) \<and>
   get_user
     \<lparr>users = [],
      habits = [\<lparr>habit_id = 1, h_user_id = 7, habit_name = Some ''Read'',
                 habit_description = Some no_description, created_date = 100,
                 is_active = True\<rparr>],
      habit_tracking = []\<rparr> 7 = None \<and>
   reachable
     \<lparr>users = [],
      habits = [\<lparr>habit_id = 1, h_user_id = 7, habit_name = Some ''Read'',
                 habit_description = Some no_description, created_date = 100,
                 is_active = True\<rparr>],
      habit_tracking = []\<rparr> 100"
proof -
  let ?db = "\<lparr>users = [],
      habits = [\<lparr>habit_id = 1, h_user_id = 7, habit_name = Some ''Read'',
                 habit_description = Some no_description, created_date = 100,
                 is_active = True\<rparr>],
      habit_tracking = []\<rparr>"
  have a: "add_habit init_db 100 7 (Some ''Read'') (Some no_description) = (?db, Some 1)"
    by (simp add: add_habit_def init_db_def autoincrement_def sqlite_int_def)
  have "reachable (fst (add_habit init_db 100 7 (Some ''Read'') (Some no_description))) 100"
    by (rule reachable.habit_added) (rule reachable.start)
  then have r: "reachable ?db 100" by (simp add: a)
  have n: "callback_new_habit \<lparr>state = None, data_habit_name = None\<rparr> =
     (\<lparr>state = Some waiting_for_habit_name, data_habit_name = None\<rparr>,
      [Edit_text Ask_habit_name, Answer Ack])"
    by (simp add: callback_new_habit_def)
  have p: "process_habit_name \<lparr>state = Some waiting_for_habit_name, data_habit_name = None\<rparr>
     (Some ''Read'') =
     Inr (\<lparr>state = Some waiting_for_habit_description, data_habit_name = Some ''Read''\<rparr>,
          [Send Ask_description])"
    by (simp add: process_habit_name_def strip_def isspace_def)
  have d: "process_habit_description init_db 100 7
     \<lparr>state = Some waiting_for_habit_description, data_habit_name = Some ''Read''\<rparr>
     (Some ''/skip'') =
     Inr (?db, \<lparr>state = None, data_habit_name = None\<rparr>,
          [Send (Habit_created (Some ''Read''))])"
    by (simp add: process_habit_description_def a clear_def Let_def)
  have g: "get_user ?db 7 = None" by (simp add: get_user_def)
  from n p d g r show ?thesis by blast
qed

section \<open>Marks and ownership\<close>

text \<open>A payload made of a prefix, an underscore and decimal digits parses to the number.\<close>

lemma split_str_no_sep: "sep \<notin> set s \<Longrightarrow> split_str sep s = [s]"
  by (induction s) auto

lemma split_str_first_part:
  "sep \<notin> set p \<Longrightarrow> split_str sep (p @ sep # s) = p # split_str sep s"
  by (induction p) auto

lemma digit_not_special:
  "is_digit c \<Longrightarrow> \<not> int_space c \<and> c \<noteq> CHR ''_'' \<and> c \<noteq> CHR ''-'' \<and> c \<noteq> CHR ''+''"
  by (auto simp: is_digit_def int_space_def Let_def)

lemma py_int_digits:
  assumes "ds \<noteq> []" and "list_all is_digit ds"
  shows "py_int ds = Some (digits_value ds)"
proof -
  from assms have h: "is_digit (hd ds)" and l: "is_digit (last ds)"
    by (simp_all add: list_all_iff)
  from h assms(1) have a: "dropWhile int_space ds = ds"
    using digit_not_special [of "hd ds"] by (cases ds) auto
  from l assms(1) have b: "dropWhile int_space (rev ds) = rev ds"
    using digit_not_special [of "last ds"]
    by (cases "rev ds") (auto simp: last_rev [symmetric] simp del: last_rev)
  have "CHR ''_'' \<notin> set ds"
    using assms(2) digit_not_special by (auto simp: list_all_iff)
  then have c: "split_str CHR ''_'' ds = [ds]" by (rule split_str_no_sep)
  from h have d: "hd ds \<noteq> CHR ''-''" "hd ds \<noteq> CHR ''+''"
    using digit_not_special [of "hd ds"] by simp_all
  show ?thesis
    using assms d by (simp add: py_int_def a b c)
qed

lemma numeric_payload:
  assumes "ds \<noteq> []" and "list_all is_digit ds" and "CHR ''_'' \<notin> set p"
  shows "habit_id_arg (p @ CHR ''_'' # ds) 1 = Inr (digits_value ds)"
proof -
  have "CHR ''_'' \<notin> set ds"
    using assms(2) digit_not_special by (auto simp: list_all_iff)
  then have "split_str CHR ''_'' (p @ CHR ''_'' # ds) = [p, ds]"
    using assms(3) by (simp add: split_str_first_part split_str_no_sep)
  then show ?thesis
    using py_int_digits [OF assms(1,2)] by (simp add: habit_id_arg_def)
qed

lemma numeric_payload_complete:
  "ds \<noteq> [] \<Longrightarrow> list_all is_digit ds \<Longrightarrow>
   habit_id_arg (''complete_'' @ ds) 1 = Inr (digits_value ds) \<and>
   habit_id_arg (''miss_'' @ ds) 1 = Inr (digits_value ds)"
  using numeric_payload [of ds "''complete''"] numeric_payload [of ds "''miss''"]
  by simp

lemma mark_habit_writes:
  "habit_id_arg data 1 = Inr hid \<Longrightarrow>
   fst (mark_habit st fresh updated db today from_user data) = fst (track_habit db today hid st)"
  by (simp add: mark_habit_def split_beta Let_def split: option.splits)

lemma track_habit_only_tracking:
  "habit_tracking (fst (track_habit (db\<lparr>users := us, habits := hs\<rparr>) today hid st)) =
   habit_tracking (fst (track_habit db today hid st))"
  by (simp add: track_habit_tracking)

text \<open>
  Claim C10. For a payload whose second part is an integer, the handlers of
  \<^verbatim>\<open>complete_\<close> and \<^verbatim>\<open>miss_\<close> leave the database exactly as \<^verbatim>\<open>track_habit\<close> of that
  id leaves it. The tracking table that results is the same whatever the users table, the
  habits table and the pressing user are: no existence, activity or ownership of the habit
  is consulted. For an id the column can hold, the habit's status of today is the mark
  afterwards. A payload \<^verbatim>\<open>complete_\<close> or \<^verbatim>\<open>miss_\<close> followed by decimal digits is
  such a payload, with the number the digits write as id.
\<close>

theorem mark_without_ownership_check:
  assumes "habit_id_arg data 1 = Inr hid"
  shows "fst (callback_complete_habit db today from_user data) =
           fst (track_habit db today hid ''completed'') \<and>
         fst (callback_miss_habit db today from_user data) =
           fst (track_habit db today hid ''missed'') \<and>
         habit_tracking
           (fst (callback_complete_habit (db\<lparr>users := us, habits := hs\<rparr>) today other_user data)) =
           habit_tracking (fst (callback_complete_habit db today from_user data)) \<and>
         habit_tracking
           (fst (callback_miss_habit (db\<lparr>users := us, habits := hs\<rparr>) today other_user data)) =
           habit_tracking (fst (callback_miss_habit db today from_user data)) \<and>
         (sqlite_int hid \<longrightarrow>
            get_today_status (fst (callback_complete_habit db today from_user data)) today hid =
              Some ''completed'' \<and>
            get_today_status (fst (callback_miss_habit db today from_user data)) today hid =
              Some ''missed'') \<and>
         (ds \<noteq> [] \<and> list_all is_digit ds \<longrightarrow>
            habit_id_arg (''complete_'' @ ds) 1 = Inr (digits_value ds) \<and>
            habit_id_arg (''miss_'' @ ds) 1 = Inr (digits_value ds))"
proof -
  have writes: "fst (mark_habit st fresh updated d today u data) = fst (track_habit d today hid st)"
    for st fresh updated d u
    using assms by (rule mark_habit_writes)
  have status: "sqlite_int hid \<longrightarrow>
      get_today_status (fst (track_habit db today hid st)) today hid = Some st" for st
    by (simp add: get_today_status_def status_on_after_track_same)
  from writes status track_habit_only_tracking numeric_payload_complete [of ds]
  show ?thesis
    unfolding callback_complete_habit_def callback_miss_habit_def
    by (simp del: append.simps)
qed

text \<open>The payload \<^verbatim>\<open>complete_42\<close> on the empty database, where no habit 42 exists.\<close>

theorem mark_without_ownership_check_witness:
  "habit_id_arg ''complete_42'' 1 = Inr 42 \<and> get_habit init_db 42 = None \<and>
   habit_tracking (fst (callback_complete_habit init_db 100 7 ''complete_42'')) =
     [\<lparr>tracking_id = 1, t_habit_id = 42, track_date = 100, status = ''completed''\<rparr>] \<and>
   get_today_status (fst (callback_complete_habit init_db 100 7 ''complete_42'')) 100 42 =
     Some ''completed''"
proof -
  have p: "habit_id_arg ''complete_42'' 1 = Inr 42" by (simp add: parse_simps)
  have g: "get_habit init_db 42 = None" by (simp add: get_habit_def init_db_def)
  have t: "fst (track_habit init_db 100 42 ''completed'') =
      \<lparr>users = [], habits = [], habit_tracking =
        [\<lparr>tracking_id = 1, t_habit_id = 42, track_date = 100, status = ''completed''\<rparr>]\<rparr>"
    by (simp add: track_habit_def init_db_def sqlite_int_def autoincrement_def)
  have i: "sqlite_int 42" by (simp add: sqlite_int_def)
  from mark_without_ownership_check [OF p, where db = init_db and today = 100 and from_user = 7]
  have "fst (callback_complete_habit init_db 100 7 ''complete_42'') =
      fst (track_habit init_db 100 42 ''completed'')"
    and "get_today_status (fst (callback_complete_habit init_db 100 7 ''complete_42'')) 100 42 =
      Some ''completed''"
    using i by blast+
  with p g t show ?thesis by simp
qed

end
